theory Spec2Isabelle
  imports Complex_Main
begin

section \<open>Python values and errors\<close>

text \<open>
  The program is \<^verbatim>\<open>parse_metrics.py\<close>. A Python \<^verbatim>\<open>str\<close> is modelled as a
  \<^typ>\<open>string\<close>: a list of characters, each one a code point in the range 0..255.
  A Python \<^verbatim>\<open>float\<close> is modelled as the real number it stands for; the rounding
  of a quotient to a binary64 value, the \<^verbatim>\<open>OverflowError\<close> of a quotient beyond the
  range of binary64, and the texts that the interpreter prints for a float, are not part
  of the model.
\<close>

datatype error = TypeError | ValueError | ZeroDivisionError

datatype pyval = PInt int | PStr string | PFloat real

text \<open>Python's \<^verbatim>\<open>None\<close> is the \<open>None\<close> of an option type.\<close>

type_synonym 'a result = "error + 'a"

definition bind :: "'a result \<Rightarrow> ('a \<Rightarrow> 'b result) \<Rightarrow> 'b result" where
  "bind r f = (case r of Inl e \<Rightarrow> Inl e | Inr x \<Rightarrow> f x)"

section \<open>String operations of the interpreter\<close>

text \<open>
  \<^verbatim>\<open>str.strip()\<close> removes whitespace at both ends. In the range 0..255 the whitespace
  characters are 0x09..0x0D, 0x1C..0x1F, 0x20, 0x85 and 0xA0.
\<close>

definition is_space :: "char \<Rightarrow> bool" where
  "is_space c = (c \<in> set [CHR 0x09, CHR 0x0A, CHR 0x0B, CHR 0x0C, CHR 0x0D,
                           CHR 0x1C, CHR 0x1D, CHR 0x1E, CHR 0x1F, CHR 0x20,
                           CHR 0x85, CHR 0xA0])"

definition strip :: "string \<Rightarrow> string" where
  "strip s = rev (dropWhile is_space (rev (dropWhile is_space s)))"

text \<open>
  \<^verbatim>\<open>str.splitlines()\<close> breaks a text at every line boundary and drops the
  boundaries. In the range 0..255 the boundaries are LF, VT, FF, CR, FS, GS, RS and NEL,
  and CR followed by LF is one boundary. A text that ends with a boundary has no empty
  last line.
\<close>

definition is_linebreak :: "char \<Rightarrow> bool" where
  "is_linebreak c = (c \<in> set [CHR 0x0A, CHR 0x0B, CHR 0x0C, CHR 0x0D,
                               CHR 0x1C, CHR 0x1D, CHR 0x1E, CHR 0x85])"

fun splitlines_from :: "string \<Rightarrow> string \<Rightarrow> string list" where
  "splitlines_from cur [] = (if cur = [] then [] else [rev cur])"
| "splitlines_from cur (c # cs) =
     (if c = CHR 0x0D \<and> cs \<noteq> [] \<and> hd cs = CHR 0x0A then rev cur # splitlines_from [] (tl cs)
      else if is_linebreak c then rev cur # splitlines_from [] cs
      else splitlines_from (c # cur) cs)"

definition splitlines :: "string \<Rightarrow> string list" where
  "splitlines text = splitlines_from [] text"

text \<open>\<^verbatim>\<open>s.startswith("#")\<close> and \<^verbatim>\<open>"=" in s\<close>.\<close>

definition startswith_hash :: "string \<Rightarrow> bool" where
  "startswith_hash s = (case s of [] \<Rightarrow> False | c # _ \<Rightarrow> c = CHR ''#'')"

definition contains_eq :: "string \<Rightarrow> bool" where
  "contains_eq s = (CHR ''='' \<in> set s)"

text \<open>
  \<^verbatim>\<open>s.split("=", 1)\<close>: the list of the parts of \<open>s\<close> around its first \<open>=\<close>; one
  part, \<open>s\<close> itself, when there is none.
\<close>

fun split_eq1 :: "string \<Rightarrow> string list" where
  "split_eq1 [] = [[]]"
| "split_eq1 (c # cs) =
     (if c = CHR ''='' then [[], cs]
      else (case split_eq1 cs of [] \<Rightarrow> [[c]] | p # ps \<Rightarrow> (c # p) # ps))"

text \<open>
  \<^verbatim>\<open>int(s)\<close> on a string: whitespace around is dropped, then an optional sign, then
  decimal digits, where one underscore may stand between two digits. Anything else is a
  \<^verbatim>\<open>ValueError\<close>. In the range 0..255 the decimal digits are \<open>0\<close>..\<open>9\<close>. The
  interpreter's configurable limit on the number of digits is not modelled.
\<close>

definition is_digit :: "char \<Rightarrow> bool" where
  "is_digit c = (c \<in> set ''0123456789'')"

definition digit_val :: "char \<Rightarrow> int" where
  "digit_val c = int (of_char c) - 48"

fun int_digits :: "int \<Rightarrow> string \<Rightarrow> int result" where
  "int_digits acc [] = Inr acc"
| "int_digits acc [c] = (if is_digit c then Inr (10 * acc + digit_val c) else Inl ValueError)"
| "int_digits acc (c # d # ds) =
     (if is_digit c then int_digits (10 * acc + digit_val c) (d # ds)
      else if c = CHR ''_'' \<and> is_digit d then int_digits (10 * acc + digit_val d) ds
      else Inl ValueError)"

definition int_unsigned :: "string \<Rightarrow> int result" where
  "int_unsigned s =
     (case s of [] \<Rightarrow> Inl ValueError
      | c # cs \<Rightarrow> if is_digit c then int_digits (digit_val c) cs else Inl ValueError)"

definition py_int :: "string \<Rightarrow> int result" where
  "py_int s =
     (case strip s of
        [] \<Rightarrow> Inl ValueError
      | c # cs \<Rightarrow>
          if c = CHR ''-'' then bind (int_unsigned cs) (\<lambda>n. Inr (- n))
          else if c = CHR ''+'' then int_unsigned cs
          else int_unsigned (c # cs))"

section \<open>parse\_kv\_lines\<close>

type_synonym dict = "string \<rightharpoonup> pyval"

text \<open>
  The body of the loop of \<^verbatim>\<open>parse_kv_lines\<close> for one line: the dictionary after
  the line. Unpacking the result of \<^verbatim>\<open>split\<close> into \<open>key, val\<close> needs exactly two
  parts and is a \<^verbatim>\<open>ValueError\<close> otherwise; the \<^verbatim>\<open>ValueError\<close> of \<^verbatim>\<open>int\<close> is
  caught and the string is stored.
\<close>

definition parse_line :: "string \<Rightarrow> dict \<Rightarrow> dict result" where
  "parse_line raw data =
     (let line = strip raw in
      if line = [] \<or> startswith_hash line then Inr data
      else if \<not> contains_eq line then Inr data
      else
        (case split_eq1 line of
           [k, v] \<Rightarrow>
             (let key = strip k; val = strip v in
              (case py_int val of
                 Inr n \<Rightarrow> Inr (data(key \<mapsto> PInt n))
               | Inl ValueError \<Rightarrow> Inr (data(key \<mapsto> PStr val))
               | Inl e \<Rightarrow> Inl e))
         | _ \<Rightarrow> Inl ValueError))"

fun parse_lines :: "string list \<Rightarrow> dict \<Rightarrow> dict result" where
  "parse_lines [] data = Inr data"
| "parse_lines (l # ls) data = bind (parse_line l data) (parse_lines ls)"

definition parse_kv_lines :: "string \<Rightarrow> dict result" where
  "parse_kv_lines text = parse_lines (splitlines text) Map.empty"

section \<open>Arithmetic on Python values\<close>

text \<open>
  \<^verbatim>\<open>a + b\<close>: numbers add, strings concatenate, a string and a number raise
  \<^verbatim>\<open>TypeError\<close>.
\<close>

fun py_add :: "pyval \<Rightarrow> pyval \<Rightarrow> pyval result" where
  "py_add (PInt a) (PInt b) = Inr (PInt (a + b))"
| "py_add (PInt a) (PFloat y) = Inr (PFloat (real_of_int a + y))"
| "py_add (PFloat x) (PInt b) = Inr (PFloat (x + real_of_int b))"
| "py_add (PFloat x) (PFloat y) = Inr (PFloat (x + y))"
| "py_add (PStr s) (PStr t) = Inr (PStr (s @ t))"
| "py_add _ _ = Inl TypeError"

text \<open>The truth value of an object in a condition: a number is true when it is not
  zero, a string when it is not empty.\<close>

fun truthy :: "pyval \<Rightarrow> bool" where
  "truthy (PInt n) = (n \<noteq> 0)"
| "truthy (PFloat x) = (x \<noteq> 0)"
| "truthy (PStr s) = (s \<noteq> [])"

text \<open>
  \<^verbatim>\<open>n / d\<close>: true division, whose result is always a float. The result is the
  quotient as a real number: the interpreter holds the binary64 nearest to it and raises
  \<^verbatim>\<open>OverflowError\<close> for a quotient beyond the binary64 range, and neither is in the
  model.
\<close>

fun py_truediv :: "pyval \<Rightarrow> pyval \<Rightarrow> real result" where
  "py_truediv (PInt a) (PInt b) =
     (if b = 0 then Inl ZeroDivisionError else Inr (real_of_int a / real_of_int b))"
| "py_truediv (PInt a) (PFloat y) =
     (if y = 0 then Inl ZeroDivisionError else Inr (real_of_int a / y))"
| "py_truediv (PFloat x) (PInt b) =
     (if b = 0 then Inl ZeroDivisionError else Inr (x / real_of_int b))"
| "py_truediv (PFloat x) (PFloat y) =
     (if y = 0 then Inl ZeroDivisionError else Inr (x / y))"
| "py_truediv _ _ = Inl TypeError"

section \<open>safe\_div and fmt\_rate\<close>

definition safe_div :: "pyval \<Rightarrow> pyval \<Rightarrow> real option result" where
  "safe_div n d = (if truthy d then bind (py_truediv n d) (\<lambda>x. Inr (Some x)) else Inr None)"

text \<open>
  Output text is a list of pieces: literal characters, or the text of a float, which the
  model does not spell out. \<open>Fixed4 x\<close> is \<open>x\<close> under the format \<^verbatim>\<open>.4f\<close>,
  \<open>Repr x\<close> is \<^verbatim>\<open>str(x)\<close>.
\<close>

datatype piece = Lit string | Fixed4 real | Repr real

type_synonym line = "piece list"

definition fmt_rate :: "real option \<Rightarrow> piece" where
  "fmt_rate x = (case x of None \<Rightarrow> Lit ''N/A'' | Some r \<Rightarrow> Fixed4 r)"

text \<open>\<^verbatim>\<open>str(n)\<close> for an integer: its decimal digits, with a minus sign when negative.\<close>

fun str_nat :: "nat \<Rightarrow> string" where
  "str_nat n =
     (if n < 10 then [char_of (48 + n)] else str_nat (n div 10) @ [char_of (48 + n mod 10)])"

declare str_nat.simps [simp del]

definition str_int :: "int \<Rightarrow> string" where
  "str_int i = (if i < 0 then CHR ''-'' # str_nat (nat (- i)) else str_nat (nat i))"

text \<open>A value inside an f-string with no format: \<^verbatim>\<open>f"{v}"\<close>.\<close>

fun py_str :: "pyval \<Rightarrow> piece" where
  "py_str (PInt n) = Lit (str_int n)"
| "py_str (PStr s) = Lit s"
| "py_str (PFloat x) = Repr x"

section \<open>main\<close>

text \<open>\<^verbatim>\<open>d.get(k, default)\<close>; \<^verbatim>\<open>d.get(k, None)\<close> is \<open>d k\<close> itself.\<close>

definition dict_get :: "dict \<Rightarrow> string \<Rightarrow> pyval \<Rightarrow> pyval" where
  "dict_get d k dflt = (case d k of None \<Rightarrow> dflt | Some v \<Rightarrow> v)"

text \<open>The local variables of \<^verbatim>\<open>main\<close> that the table and the CSV row are made of.\<close>

record metrics =
  total_reads :: pyval
  read_hits :: pyval
  read_misses :: pyval
  total_writes :: pyval
  write_hits :: pyval
  write_misses :: pyval
  coherency_invalidates :: pyval
  cycles :: pyval
  cycles_bus_busy :: "pyval option"
  cache_hit_rate :: "real option"
  cache_miss_rate :: "real option"
  coherency_miss_rate :: "real option"
  bus_utilization :: "real option"

text \<open>Lines 48 to 65 of \<^verbatim>\<open>main\<close>: the fields read from the dictionary, the three
  sums and the four rates, in the order of the source.\<close>

definition main_rates :: "dict \<Rightarrow> metrics result" where
  "main_rates d =
     (let tr = dict_get d ''total_reads'' (PInt 0);
          rh = dict_get d ''read_hits'' (PInt 0);
          rm = dict_get d ''read_misses'' (PInt 0);
          tw = dict_get d ''total_writes'' (PInt 0);
          wh = dict_get d ''write_hits'' (PInt 0);
          wm = dict_get d ''write_misses'' (PInt 0);
          ci = dict_get d ''coherency_invalidates'' (PInt 0);
          cy = dict_get d ''cycles'' (PInt 0);
          cbb = d ''cycles_bus_busy''
      in
      bind (py_add tr tw) (\<lambda>total_accesses.
      bind (py_add rh wh) (\<lambda>total_hits.
      bind (py_add rm wm) (\<lambda>total_misses.
      bind (safe_div total_hits total_accesses) (\<lambda>chr.
      bind (safe_div total_misses total_accesses) (\<lambda>cmr.
      bind (safe_div ci tr) (\<lambda>comr.
      bind (case cbb of None \<Rightarrow> Inr None | Some b \<Rightarrow> safe_div b cy) (\<lambda>bu.
      Inr \<lparr>total_reads = tr, read_hits = rh, read_misses = rm, total_writes = tw,
           write_hits = wh, write_misses = wm, coherency_invalidates = ci, cycles = cy,
           cycles_bus_busy = cbb, cache_hit_rate = chr, cache_miss_rate = cmr,
           coherency_miss_rate = comr, bus_utilization = bu\<rparr>))))))))"

text \<open>Lines 67 to 83: the lines printed, in order.\<close>

definition table :: "metrics \<Rightarrow> line list" where
  "table m =
     [[Lit ''Metric                       Value''],
      [Lit ''--------------------------------------''],
      [Lit ''total_reads                 '', py_str (total_reads m)],
      [Lit ''read_hits                   '', py_str (read_hits m)],
      [Lit ''read_misses                 '', py_str (read_misses m)],
      [Lit ''total_writes                '', py_str (total_writes m)],
      [Lit ''write_hits                  '', py_str (write_hits m)],
      [Lit ''write_misses                '', py_str (write_misses m)],
      [Lit ''coherency_invalidates       '', py_str (coherency_invalidates m)],
      [Lit ''cycles                      '', py_str (cycles m)]]
     @ (case cycles_bus_busy m of
          None \<Rightarrow> []
        | Some b \<Rightarrow> [[Lit ''cycles_bus_busy             '', py_str b]])
     @ [[Lit ''--------------------------------------''],
        [Lit ''cache_hit_rate              '', fmt_rate (cache_hit_rate m)],
        [Lit ''cache_miss_rate             '', fmt_rate (cache_miss_rate m)],
        [Lit ''coherency_miss_rate         '', fmt_rate (coherency_miss_rate m)],
        [Lit ''bus_utilization             '', fmt_rate (bus_utilization m)]]"

text \<open>Lines 86 to 107: the field names and the row dictionary, as the list of its
  items.\<close>

definition fieldnames :: "string list" where
  "fieldnames =
     [''total_reads'', ''read_hits'', ''read_misses'',
      ''total_writes'', ''write_hits'', ''write_misses'',
      ''coherency_invalidates'', ''cycles'', ''cycles_bus_busy'',
      ''cache_hit_rate'', ''cache_miss_rate'',
      ''coherency_miss_rate'', ''bus_utilization'']"

definition or_empty :: "pyval option \<Rightarrow> pyval" where
  "or_empty v = (case v of None \<Rightarrow> PStr [] | Some x \<Rightarrow> x)"

definition rate_or_empty :: "real option \<Rightarrow> pyval" where
  "rate_or_empty v = (case v of None \<Rightarrow> PStr [] | Some x \<Rightarrow> PFloat x)"

definition row :: "metrics \<Rightarrow> (string \<times> pyval) list" where
  "row m =
     [(''total_reads'', total_reads m),
      (''read_hits'', read_hits m),
      (''read_misses'', read_misses m),
      (''total_writes'', total_writes m),
      (''write_hits'', write_hits m),
      (''write_misses'', write_misses m),
      (''coherency_invalidates'', coherency_invalidates m),
      (''cycles'', cycles m),
      (''cycles_bus_busy'', or_empty (cycles_bus_busy m)),
      (''cache_hit_rate'', rate_or_empty (cache_hit_rate m)),
      (''cache_miss_rate'', rate_or_empty (cache_miss_rate m)),
      (''coherency_miss_rate'', rate_or_empty (coherency_miss_rate m)),
      (''bus_utilization'', rate_or_empty (bus_utilization m))]"

text \<open>
  A CSV file is the list of the rows written to it, a row the list of the values of its
  fields; how the writer spells a value in the file is not modelled.
  \<^verbatim>\<open>DictWriter.writerow\<close> raises \<^verbatim>\<open>ValueError\<close> for a key that is not a field name
  and writes the values in the order of the field names, the empty string for a missing
  one. \<^verbatim>\<open>DictWriter.writeheader\<close> writes the field names.
\<close>

type_synonym csv_file = "pyval list list"

definition dict_to_list :: "string list \<Rightarrow> (string \<times> pyval) list \<Rightarrow> pyval list result" where
  "dict_to_list fns rowdict =
     (if \<exists>k \<in> set (map fst rowdict). k \<notin> set fns then Inl ValueError
      else Inr (map (\<lambda>k. or_empty (map_of rowdict k)) fns))"

definition writeheader :: "string list \<Rightarrow> csv_file \<Rightarrow> csv_file" where
  "writeheader fns f = f @ [map PStr fns]"

definition writerow :: "string list \<Rightarrow> (string \<times> pyval) list \<Rightarrow> csv_file \<Rightarrow> csv_file result" where
  "writerow fns rowdict f = bind (dict_to_list fns rowdict) (\<lambda>cells. Inr (f @ [cells]))"

text \<open>
  \<^verbatim>\<open>main\<close>, from the text of the input file and the CSV file as it is before the
  call (\<open>None\<close> when the path does not exist) to the lines printed and the CSV file
  afterwards. Every error of the model is raised before the first line is printed.
\<close>

definition main :: "string \<Rightarrow> csv_file option \<Rightarrow> (line list \<times> csv_file) result" where
  "main text csv =
     bind (parse_kv_lines text) (\<lambda>d.
     bind (main_rates d) (\<lambda>m.
       let printed = table m;
           write_header = (csv = None);
           f = (case csv of None \<Rightarrow> [] | Some rows \<Rightarrow> rows);
           f' = (if write_header then writeheader fieldnames f else f)
       in bind (writerow fieldnames (row m) f') (\<lambda>f''. Inr (printed, f''))))"

section \<open>Vocabulary of the specification\<close>

text \<open>The eight counters that default to 0, and with \<open>cycles_bus_busy\<close> the nine names
  that \<^verbatim>\<open>main\<close> reads.\<close>

definition numeric_fields :: "string list" where
  "numeric_fields =
     [''total_reads'', ''read_hits'', ''read_misses'', ''total_writes'', ''write_hits'',
      ''write_misses'', ''coherency_invalidates'', ''cycles'']"

definition known_fields :: "string list" where
  "known_fields = numeric_fields @ [''cycles_bus_busy'']"

text \<open>A record with integer values: each known name is absent or holds an integer.\<close>

definition int_or_absent :: "dict \<Rightarrow> string \<Rightarrow> bool" where
  "int_or_absent d k = (case d k of None \<Rightarrow> True | Some (PInt n) \<Rightarrow> True | Some _ \<Rightarrow> False)"

definition int_valued :: "dict \<Rightarrow> bool" where
  "int_valued d = list_all (int_or_absent d) known_fields"

text \<open>The integer of a field, 0 when the key is absent.\<close>

definition int_field :: "dict \<Rightarrow> string \<Rightarrow> int" where
  "int_field d k = (case d k of Some (PInt n) \<Rightarrow> n | _ \<Rightarrow> 0)"

text \<open>The quotient of two integers as a real number, \<open>None\<close> for a zero denominator.\<close>

definition ratio :: "int \<Rightarrow> int \<Rightarrow> real option" where
  "ratio n d = (if d \<noteq> 0 then Some (real_of_int n / real_of_int d) else None)"

text \<open>
  The parsing algorithm in the words of the specification. A line gives an entry when,
  trimmed, it is not empty, does not start with \<open>#\<close> and has a \<open>=\<close>: the key is the
  trimmed part before the first \<open>=\<close>, the value the trimmed part after it, an integer
  when it parses as one and the trimmed string otherwise. The record maps a key to the
  value of its last entry.
\<close>

definition spec_entry :: "string \<Rightarrow> (string \<times> pyval) option" where
  "spec_entry raw =
     (let t = strip raw in
      if t = [] \<or> hd t = CHR ''#'' then None
      else if CHR ''='' \<notin> set t then None
      else
        (let k = strip (takeWhile (\<lambda>c. c \<noteq> CHR ''='') t);
             v = strip (drop 1 (dropWhile (\<lambda>c. c \<noteq> CHR ''='') t))
         in Some (k, case py_int v of Inr n \<Rightarrow> PInt n | Inl e \<Rightarrow> PStr v)))"

definition spec_record :: "string \<Rightarrow> dict" where
  "spec_record text = map_of (rev (List.map_filter spec_entry (splitlines text)))"

text \<open>A comment line or a blank line: its first character that is not whitespace, if
  there is one, is \<open>#\<close>.\<close>

definition comment_or_blank :: "string \<Rightarrow> bool" where
  "comment_or_blank l = (case dropWhile is_space l of [] \<Rightarrow> True | c # _ \<Rightarrow> c = CHR ''#'')"

text \<open>A line that assigns to a key outside the nine known names.\<close>

definition unknown_key_line :: "string \<Rightarrow> bool" where
  "unknown_key_line l =
     (case spec_entry l of None \<Rightarrow> False | Some (k, v) \<Rightarrow> k \<notin> set known_fields)"

text \<open>The six counters that \<^verbatim>\<open>main\<close> adds in pairs, and a record in which every
  known name other than \<open>k\<close> is absent or holds an integer.\<close>

definition summand_fields :: "string list" where
  "summand_fields =
     [''total_reads'', ''read_hits'', ''read_misses'', ''total_writes'', ''write_hits'',
      ''write_misses'']"

definition int_valued_except :: "dict \<Rightarrow> string \<Rightarrow> bool" where
  "int_valued_except d k = list_all (\<lambda>k'. k' = k \<or> int_or_absent d k') known_fields"

section \<open>Properties\<close>

subsection \<open>The rates of a record with integer values\<close>

lemma dict_get_int: "int_or_absent d k \<Longrightarrow> dict_get d k (PInt 0) = PInt (int_field d k)"
  by (auto simp: int_or_absent_def dict_get_def int_field_def split: option.splits pyval.splits)

lemma int_valued_fields:
  assumes "int_valued d"
  shows "int_or_absent d ''total_reads''" "int_or_absent d ''read_hits''"
    "int_or_absent d ''read_misses''" "int_or_absent d ''total_writes''"
    "int_or_absent d ''write_hits''" "int_or_absent d ''write_misses''"
    "int_or_absent d ''coherency_invalidates''" "int_or_absent d ''cycles''"
    "int_or_absent d ''cycles_bus_busy''"
  using assms by (simp_all add: int_valued_def known_fields_def numeric_fields_def)

lemma safe_div_int: "safe_div (PInt n) (PInt d) = Inr (ratio n d)"
  by (simp add: safe_div_def ratio_def bind_def)

lemma bus_int:
  "int_or_absent d ''cycles_bus_busy'' \<Longrightarrow>
   (case d ''cycles_bus_busy'' of None \<Rightarrow> Inr None | Some b \<Rightarrow> safe_div b (PInt c)) =
   Inr (case d ''cycles_bus_busy'' of None \<Rightarrow> None
        | Some b \<Rightarrow> ratio (int_field d ''cycles_bus_busy'') c)"
  by (auto simp: int_or_absent_def int_field_def safe_div_int split: option.splits pyval.splits)

lemma main_rates_int:
  assumes "int_valued d"
  shows "main_rates d = Inr
    \<lparr>total_reads = PInt (int_field d ''total_reads''),
     read_hits = PInt (int_field d ''read_hits''),
     read_misses = PInt (int_field d ''read_misses''),
     total_writes = PInt (int_field d ''total_writes''),
     write_hits = PInt (int_field d ''write_hits''),
     write_misses = PInt (int_field d ''write_misses''),
     coherency_invalidates = PInt (int_field d ''coherency_invalidates''),
     cycles = PInt (int_field d ''cycles''),
     cycles_bus_busy = d ''cycles_bus_busy'',
     cache_hit_rate = ratio (int_field d ''read_hits'' + int_field d ''write_hits'')
                            (int_field d ''total_reads'' + int_field d ''total_writes''),
     cache_miss_rate = ratio (int_field d ''read_misses'' + int_field d ''write_misses'')
                            (int_field d ''total_reads'' + int_field d ''total_writes''),
     coherency_miss_rate =
       ratio (int_field d ''coherency_invalidates'') (int_field d ''total_reads''),
     bus_utilization =
       (case d ''cycles_bus_busy'' of None \<Rightarrow> None
        | Some b \<Rightarrow> ratio (int_field d ''cycles_bus_busy'') (int_field d ''cycles''))\<rparr>"
  unfolding main_rates_def Let_def
  by (simp only: dict_get_int int_valued_fields[OF assms] py_add.simps bind_def sum.case
       safe_div_int bus_int)

subsection \<open>Facts about the stages of main\<close>

lemma bindE: "bind r f = Inr y \<Longrightarrow> (\<And>x. r = Inr x \<Longrightarrow> f x = Inr y \<Longrightarrow> P) \<Longrightarrow> P"
  by (cases r) (simp_all add: bind_def)

lemma bind_Inr [simp]: "bind (Inr x) f = f x"
  by (simp add: bind_def)

lemma bind_Inl [simp]: "bind (Inl e) f = Inl e"
  by (simp add: bind_def)

lemma main_rates_fields:
  assumes "main_rates d = Inr m"
  shows "total_reads m = dict_get d ''total_reads'' (PInt 0)"
    and "read_hits m = dict_get d ''read_hits'' (PInt 0)"
    and "read_misses m = dict_get d ''read_misses'' (PInt 0)"
    and "total_writes m = dict_get d ''total_writes'' (PInt 0)"
    and "write_hits m = dict_get d ''write_hits'' (PInt 0)"
    and "write_misses m = dict_get d ''write_misses'' (PInt 0)"
    and "coherency_invalidates m = dict_get d ''coherency_invalidates'' (PInt 0)"
    and "cycles m = dict_get d ''cycles'' (PInt 0)"
    and "cycles_bus_busy m = d ''cycles_bus_busy''"
    and "d ''cycles_bus_busy'' = None \<Longrightarrow> bus_utilization m = None"
  using assms unfolding main_rates_def Let_def
  by (auto elim!: bindE)

lemma writerow_row:
  "writerow fieldnames (row m) f = Inr (f @
     [[total_reads m, read_hits m, read_misses m, total_writes m, write_hits m,
       write_misses m, coherency_invalidates m, cycles m, or_empty (cycles_bus_busy m),
       rate_or_empty (cache_hit_rate m), rate_or_empty (cache_miss_rate m),
       rate_or_empty (coherency_miss_rate m), rate_or_empty (bus_utilization m)]])"
  by (simp add: writerow_def dict_to_list_def fieldnames_def row_def or_empty_def)

lemma main_success:
  assumes "parse_kv_lines text = Inr d" and "main_rates d = Inr m"
  shows "main text csv = Inr (table m,
     (case csv of None \<Rightarrow> [map PStr fieldnames] | Some f \<Rightarrow> f) @
     [[total_reads m, read_hits m, read_misses m, total_writes m, write_hits m,
       write_misses m, coherency_invalidates m, cycles m, or_empty (cycles_bus_busy m),
       rate_or_empty (cache_hit_rate m), rate_or_empty (cache_miss_rate m),
       rate_or_empty (coherency_miss_rate m), rate_or_empty (bus_utilization m)]])"
  by (cases csv) (simp_all add: main_def assms Let_def writerow_row writeheader_def)

lemma main_InrD:
  assumes "main text csv = Inr (printed, f)"
  obtains d m where "parse_kv_lines text = Inr d" and "main_rates d = Inr m"
    and "printed = table m"
  using assms unfolding main_def Let_def
  by (auto elim!: bindE)

text \<open>
  C7. When the key \<open>cycles_bus_busy\<close> is absent from the input, \<open>bus_utilization\<close>
  is \<open>None\<close> and the table has no \<open>cycles_bus_busy\<close> line: it is the two heading
  lines, the eight counters, the separator and the four rates, in this order.
\<close>

theorem absent_bus_busy_row_omitted:
  assumes "parse_kv_lines text = Inr d" and "d ''cycles_bus_busy'' = None"
    and "main text csv = Inr (printed, f)"
  shows "\<exists>m. main_rates d = Inr m \<and> bus_utilization m = None
     \<and> printed =
        [[Lit ''Metric                       Value''],
         [Lit ''--------------------------------------''],
         [Lit ''total_reads                 '', py_str (total_reads m)],
         [Lit ''read_hits                   '', py_str (read_hits m)],
         [Lit ''read_misses                 '', py_str (read_misses m)],
         [Lit ''total_writes                '', py_str (total_writes m)],
         [Lit ''write_hits                  '', py_str (write_hits m)],
         [Lit ''write_misses                '', py_str (write_misses m)],
         [Lit ''coherency_invalidates       '', py_str (coherency_invalidates m)],
         [Lit ''cycles                      '', py_str (cycles m)],
         [Lit ''--------------------------------------''],
         [Lit ''cache_hit_rate              '', fmt_rate (cache_hit_rate m)],
         [Lit ''cache_miss_rate             '', fmt_rate (cache_miss_rate m)],
         [Lit ''coherency_miss_rate         '', fmt_rate (coherency_miss_rate m)],
         [Lit ''bus_utilization             '', Lit ''N/A'']]"
proof -
  from assms(3) obtain d' m where d': "parse_kv_lines text = Inr d'"
    and m: "main_rates d' = Inr m" and p: "printed = table m"
    by (rule main_InrD)
  from d' assms(1) have "d' = d" by simp
  with m have m': "main_rates d = Inr m" by simp
  have "cycles_bus_busy m = None" "bus_utilization m = None"
    using main_rates_fields(9,10)[OF m'] assms(2) by simp_all
  with m' p show ?thesis by (simp add: table_def fmt_rate_def)
qed

subsection \<open>Examples and the remaining properties of the rates\<close>

lemmas eval_defs = parse_kv_lines_def splitlines_def is_linebreak_def parse_line_def strip_def
  is_space_def startswith_hash_def contains_eq_def py_int_def int_unsigned_def is_digit_def
  digit_val_def Let_def

lemma parse_example_small:
  "parse_kv_lines ''total_reads=4\<newline>read_hits=3'' =
   Inr [''total_reads'' \<mapsto> PInt 4, ''read_hits'' \<mapsto> PInt 3]"
  by (simp add: eval_defs)

lemma int_valued_small: "int_valued [''total_reads'' \<mapsto> PInt 4, ''read_hits'' \<mapsto> PInt 3]"
  by (simp add: int_valued_def known_fields_def numeric_fields_def int_or_absent_def)

lemma parse_example_bus:
  "parse_kv_lines ''cycles_bus_busy = 5\<newline>cycles = 10'' =
   Inr [''cycles_bus_busy'' \<mapsto> PInt 5, ''cycles'' \<mapsto> PInt 10]"
  by (simp add: eval_defs)

theorem absent_bus_busy_row_omitted_witness:
  "parse_kv_lines ''total_reads=4\<newline>read_hits=3'' =
     Inr [''total_reads'' \<mapsto> PInt 4, ''read_hits'' \<mapsto> PInt 3]
   \<and> [''total_reads'' \<mapsto> PInt 4, ''read_hits'' \<mapsto> PInt 3] ''cycles_bus_busy'' = None
   \<and> (\<exists>printed f m. main ''total_reads=4\<newline>read_hits=3'' None = Inr (printed, f)
         \<and> main_rates [''total_reads'' \<mapsto> PInt 4, ''read_hits'' \<mapsto> PInt 3] = Inr m
         \<and> bus_utilization m = None
         \<and> length printed = 15
         \<and> printed ! 9 = [Lit ''cycles                      '', py_str (cycles m)]
         \<and> printed ! 10 = [Lit ''--------------------------------------''])"
proof -
  have absent: "[''total_reads'' \<mapsto> PInt 4, ''read_hits'' \<mapsto> PInt 3] ''cycles_bus_busy'' = None"
    by simp
  obtain printed f where run: "main ''total_reads=4\<newline>read_hits=3'' None = Inr (printed, f)"
    using main_success[OF parse_example_small main_rates_int[OF int_valued_small], of None]
    by blast
  from absent_bus_busy_row_omitted[OF parse_example_small absent run]
  obtain m where m: "main_rates [''total_reads'' \<mapsto> PInt 4, ''read_hits'' \<mapsto> PInt 3] = Inr m"
    and b: "bus_utilization m = None"
    and p: "length printed = 15"
      "printed ! 9 = [Lit ''cycles                      '', py_str (cycles m)]"
      "printed ! 10 = [Lit ''--------------------------------------'']"
    by force
  with parse_example_small absent run show ?thesis by blast
qed

text \<open>
  C6. A zero denominator never raises: \<open>safe_div\<close> on the denominator 0 returns
  \<open>None\<close> whatever the numerator, and for a record with integer values the rates are
  computed without error, with \<open>cache_hit_rate\<close> and \<open>cache_miss_rate\<close> both
  \<open>None\<close> when \<open>total_reads + total_writes\<close> is zero (so when both are zero),
  \<open>coherency_miss_rate\<close> \<open>None\<close> when \<open>total_reads\<close> is zero and
  \<open>bus_utilization\<close> \<open>None\<close> when \<open>cycles\<close> is zero. A rate that is \<open>None\<close> is
  printed as \<open>N/A\<close> in its line of the table and is the empty string in the CSV row.
\<close>

theorem zero_denominator_is_null:
  assumes "int_valued d"
  shows "(\<forall>n. safe_div n (PInt 0) = Inr None)
     \<and> (\<exists>m. main_rates d = Inr m
     \<and> (int_field d ''total_reads'' + int_field d ''total_writes'' = 0 \<longrightarrow>
          cache_hit_rate m = None \<and> cache_miss_rate m = None)
     \<and> (int_field d ''total_reads'' = 0 \<longrightarrow> coherency_miss_rate m = None)
     \<and> (int_field d ''cycles'' = 0 \<longrightarrow> bus_utilization m = None)
     \<and> (cache_hit_rate m = None \<longrightarrow>
          [Lit ''cache_hit_rate              '', Lit ''N/A''] \<in> set (table m)
          \<and> map_of (row m) ''cache_hit_rate'' = Some (PStr []))
     \<and> (cache_miss_rate m = None \<longrightarrow>
          [Lit ''cache_miss_rate             '', Lit ''N/A''] \<in> set (table m)
          \<and> map_of (row m) ''cache_miss_rate'' = Some (PStr []))
     \<and> (coherency_miss_rate m = None \<longrightarrow>
          [Lit ''coherency_miss_rate         '', Lit ''N/A''] \<in> set (table m)
          \<and> map_of (row m) ''coherency_miss_rate'' = Some (PStr []))
     \<and> (bus_utilization m = None \<longrightarrow>
          [Lit ''bus_utilization             '', Lit ''N/A''] \<in> set (table m)
          \<and> map_of (row m) ''bus_utilization'' = Some (PStr [])))"
proof -
  let ?m = "projr (main_rates d)"
  have 0: "\<forall>n. safe_div n (PInt 0) = Inr None" by (simp add: safe_div_def)
  have m: "main_rates d = Inr ?m" by (simp add: main_rates_int[OF assms])
  have 1: "int_field d ''total_reads'' + int_field d ''total_writes'' = 0 \<longrightarrow>
          cache_hit_rate ?m = None \<and> cache_miss_rate ?m = None"
    by (simp add: main_rates_int[OF assms] ratio_def)
  have 2: "int_field d ''total_reads'' = 0 \<longrightarrow> coherency_miss_rate ?m = None"
    by (simp add: main_rates_int[OF assms] ratio_def)
  have 3: "int_field d ''cycles'' = 0 \<longrightarrow> bus_utilization ?m = None"
    by (simp add: main_rates_int[OF assms] ratio_def split: option.splits)
  have 4: "cache_hit_rate m = None \<longrightarrow>
          [Lit ''cache_hit_rate              '', Lit ''N/A''] \<in> set (table m)
          \<and> map_of (row m) ''cache_hit_rate'' = Some (PStr [])" for m
    by (simp add: table_def fmt_rate_def row_def rate_or_empty_def)
  have 5: "cache_miss_rate m = None \<longrightarrow>
          [Lit ''cache_miss_rate             '', Lit ''N/A''] \<in> set (table m)
          \<and> map_of (row m) ''cache_miss_rate'' = Some (PStr [])" for m
    by (simp add: table_def fmt_rate_def row_def rate_or_empty_def)
  have 6: "coherency_miss_rate m = None \<longrightarrow>
          [Lit ''coherency_miss_rate         '', Lit ''N/A''] \<in> set (table m)
          \<and> map_of (row m) ''coherency_miss_rate'' = Some (PStr [])" for m
    by (simp add: table_def fmt_rate_def row_def rate_or_empty_def)
  have 7: "bus_utilization m = None \<longrightarrow>
          [Lit ''bus_utilization             '', Lit ''N/A''] \<in> set (table m)
          \<and> map_of (row m) ''bus_utilization'' = Some (PStr [])" for m
    by (simp add: table_def fmt_rate_def row_def rate_or_empty_def)
  from 0 m 1 2 3 4 5 6 7 show ?thesis by blast
qed

lemma int_valued_bus_only: "int_valued [''cycles_bus_busy'' \<mapsto> PInt 7]"
  by (simp add: int_valued_def known_fields_def numeric_fields_def int_or_absent_def)

theorem zero_denominator_is_null_witness:
  "int_valued [''cycles_bus_busy'' \<mapsto> PInt 7]
   \<and> safe_div (PStr ''abc'') (PInt 0) = Inr None
   \<and> (\<exists>m. main_rates [''cycles_bus_busy'' \<mapsto> PInt 7] = Inr m
        \<and> cache_hit_rate m = None \<and> cache_miss_rate m = None
        \<and> coherency_miss_rate m = None \<and> bus_utilization m = None
        \<and> [Lit ''cache_hit_rate              '', Lit ''N/A''] \<in> set (table m)
        \<and> [Lit ''bus_utilization             '', Lit ''N/A''] \<in> set (table m)
        \<and> map_of (row m) ''cache_hit_rate'' = Some (PStr [])
        \<and> map_of (row m) ''bus_utilization'' = Some (PStr []))"
proof -
  have z: "int_field [''cycles_bus_busy'' \<mapsto> PInt 7] ''total_reads''
            + int_field [''cycles_bus_busy'' \<mapsto> PInt 7] ''total_writes'' = 0"
    "int_field [''cycles_bus_busy'' \<mapsto> PInt 7] ''total_reads'' = 0"
    "int_field [''cycles_bus_busy'' \<mapsto> PInt 7] ''cycles'' = 0"
    by (simp_all add: int_field_def)
  from zero_denominator_is_null[OF int_valued_bus_only] z int_valued_bus_only
  show ?thesis by blast
qed

text \<open>
  C8. For integers \<open>a, b \<ge> 0\<close>, a record with \<open>read_hits = a\<close>, \<open>write_hits = b\<close>,
  \<open>total_reads = a\<close>, \<open>total_writes = b\<close>, \<open>read_misses = 0\<close> and
  \<open>write_misses = 0\<close> has the \<open>cache_hit_rate\<close> \<open>1.0\<close> when \<open>a + b > 0\<close> and
  \<open>None\<close> when \<open>a + b = 0\<close>.
\<close>

theorem all_hits_rate_is_one:
  assumes "0 \<le> a" and "0 \<le> b" and "int_valued d"
    and "d ''read_hits'' = Some (PInt a)" and "d ''write_hits'' = Some (PInt b)"
    and "d ''total_reads'' = Some (PInt a)" and "d ''total_writes'' = Some (PInt b)"
    and "d ''read_misses'' = Some (PInt 0)" and "d ''write_misses'' = Some (PInt 0)"
  shows "\<exists>m. main_rates d = Inr m
     \<and> cache_hit_rate m = (if 0 < a + b then Some 1 else None)"
  using assms(1,2,4-7)
  by (simp add: main_rates_int[OF assms(3)] int_field_def ratio_def)

lemma int_valued_hits:
  "int_valued [''read_hits'' \<mapsto> PInt a, ''write_hits'' \<mapsto> PInt b, ''total_reads'' \<mapsto> PInt a,
     ''total_writes'' \<mapsto> PInt b, ''read_misses'' \<mapsto> PInt 0, ''write_misses'' \<mapsto> PInt 0]"
  by (simp add: int_valued_def known_fields_def numeric_fields_def int_or_absent_def)

theorem all_hits_rate_is_one_witness:
  "(\<exists>m. main_rates [''read_hits'' \<mapsto> PInt 3, ''write_hits'' \<mapsto> PInt 2,
            ''total_reads'' \<mapsto> PInt 3, ''total_writes'' \<mapsto> PInt 2,
            ''read_misses'' \<mapsto> PInt 0, ''write_misses'' \<mapsto> PInt 0] = Inr m
        \<and> cache_hit_rate m = Some 1)
   \<and> (\<exists>m. main_rates [''read_hits'' \<mapsto> PInt 0, ''write_hits'' \<mapsto> PInt 0,
            ''total_reads'' \<mapsto> PInt 0, ''total_writes'' \<mapsto> PInt 0,
            ''read_misses'' \<mapsto> PInt 0, ''write_misses'' \<mapsto> PInt 0] = Inr m
        \<and> cache_hit_rate m = None)"
  using all_hits_rate_is_one[OF _ _ int_valued_hits[of 3 2], of 3 2]
    all_hits_rate_is_one[OF _ _ int_valued_hits[of 0 0], of 0 0]
  by simp

subsection \<open>The CSV file\<close>

text \<open>
  C4. The row written has the 13 columns \<open>total_reads\<close>, \<open>read_hits\<close>,
  \<open>read_misses\<close>, \<open>total_writes\<close>, \<open>write_hits\<close>, \<open>write_misses\<close>,
  \<open>coherency_invalidates\<close>, \<open>cycles\<close>, \<open>cycles_bus_busy\<close>, \<open>cache_hit_rate\<close>,
  \<open>cache_miss_rate\<close>, \<open>coherency_miss_rate\<close>, \<open>bus_utilization\<close> in this order,
  with the empty string for a value that is \<open>None\<close>. The header, these 13 names, is
  written only when the file did not exist before the call: a run on a path that does not
  exist leaves the header and one row, a run on an existing file appends one row and
  nothing else, so two runs one after the other on a fresh path leave one header and two
  rows.
\<close>

theorem csv_header_once_and_row:
  assumes "parse_kv_lines t1 = Inr d1" and "main_rates d1 = Inr m1"
    and "parse_kv_lines t2 = Inr d2" and "main_rates d2 = Inr m2"
  shows "fieldnames =
       [''total_reads'', ''read_hits'', ''read_misses'', ''total_writes'', ''write_hits'',
        ''write_misses'', ''coherency_invalidates'', ''cycles'', ''cycles_bus_busy'',
        ''cache_hit_rate'', ''cache_miss_rate'', ''coherency_miss_rate'', ''bus_utilization'']
     \<and> (\<exists>r1 r2.
          r1 = [total_reads m1, read_hits m1, read_misses m1, total_writes m1, write_hits m1,
                write_misses m1, coherency_invalidates m1, cycles m1,
                (case cycles_bus_busy m1 of None \<Rightarrow> PStr [] | Some v \<Rightarrow> v),
                (case cache_hit_rate m1 of None \<Rightarrow> PStr [] | Some x \<Rightarrow> PFloat x),
                (case cache_miss_rate m1 of None \<Rightarrow> PStr [] | Some x \<Rightarrow> PFloat x),
                (case coherency_miss_rate m1 of None \<Rightarrow> PStr [] | Some x \<Rightarrow> PFloat x),
                (case bus_utilization m1 of None \<Rightarrow> PStr [] | Some x \<Rightarrow> PFloat x)]
        \<and> r2 = [total_reads m2, read_hits m2, read_misses m2, total_writes m2, write_hits m2,
                write_misses m2, coherency_invalidates m2, cycles m2,
                (case cycles_bus_busy m2 of None \<Rightarrow> PStr [] | Some v \<Rightarrow> v),
                (case cache_hit_rate m2 of None \<Rightarrow> PStr [] | Some x \<Rightarrow> PFloat x),
                (case cache_miss_rate m2 of None \<Rightarrow> PStr [] | Some x \<Rightarrow> PFloat x),
                (case coherency_miss_rate m2 of None \<Rightarrow> PStr [] | Some x \<Rightarrow> PFloat x),
                (case bus_utilization m2 of None \<Rightarrow> PStr [] | Some x \<Rightarrow> PFloat x)]
        \<and> main t1 None = Inr (table m1, [map PStr fieldnames, r1])
        \<and> main t2 (Some [map PStr fieldnames, r1]) =
            Inr (table m2, [map PStr fieldnames, r1, r2])
        \<and> (\<forall>f. main t2 (Some f) = Inr (table m2, f @ [r2])))"
proof -
  have names: "fieldnames =
       [''total_reads'', ''read_hits'', ''read_misses'', ''total_writes'', ''write_hits'',
        ''write_misses'', ''coherency_invalidates'', ''cycles'', ''cycles_bus_busy'',
        ''cache_hit_rate'', ''cache_miss_rate'', ''coherency_miss_rate'', ''bus_utilization'']"
    by (simp only: fieldnames_def)
  have first: "main t1 None = Inr (table m1, [map PStr fieldnames,
       [total_reads m1, read_hits m1, read_misses m1, total_writes m1, write_hits m1,
        write_misses m1, coherency_invalidates m1, cycles m1, or_empty (cycles_bus_busy m1),
        rate_or_empty (cache_hit_rate m1), rate_or_empty (cache_miss_rate m1),
        rate_or_empty (coherency_miss_rate m1), rate_or_empty (bus_utilization m1)]])"
    using main_success[OF assms(1,2), of None] by simp
  have later: "main t2 (Some f) = Inr (table m2, f @
       [[total_reads m2, read_hits m2, read_misses m2, total_writes m2, write_hits m2,
        write_misses m2, coherency_invalidates m2, cycles m2, or_empty (cycles_bus_busy m2),
        rate_or_empty (cache_hit_rate m2), rate_or_empty (cache_miss_rate m2),
        rate_or_empty (coherency_miss_rate m2), rate_or_empty (bus_utilization m2)]])" for f
    using main_success[OF assms(3,4), of "Some f"] by simp
  show ?thesis
    apply (rule conjI[OF names])
    apply (simp only: first later or_empty_def rate_or_empty_def)
    apply simp
    done
qed


lemma int_valued_bus: "int_valued [''cycles_bus_busy'' \<mapsto> PInt 5, ''cycles'' \<mapsto> PInt 10]"
  by (simp add: int_valued_def known_fields_def numeric_fields_def int_or_absent_def)

theorem csv_header_once_and_row_witness:
  "parse_kv_lines ''total_reads=4\<newline>read_hits=3'' =
     Inr [''total_reads'' \<mapsto> PInt 4, ''read_hits'' \<mapsto> PInt 3]
   \<and> parse_kv_lines ''cycles_bus_busy = 5\<newline>cycles = 10'' =
     Inr [''cycles_bus_busy'' \<mapsto> PInt 5, ''cycles'' \<mapsto> PInt 10]
   \<and> (\<exists>m1 m2 p1 p2 r1 r2.
         main_rates [''total_reads'' \<mapsto> PInt 4, ''read_hits'' \<mapsto> PInt 3] = Inr m1
       \<and> main_rates [''cycles_bus_busy'' \<mapsto> PInt 5, ''cycles'' \<mapsto> PInt 10] = Inr m2
       \<and> main ''total_reads=4\<newline>read_hits=3'' None = Inr (p1, [map PStr fieldnames, r1])
       \<and> main ''cycles_bus_busy = 5\<newline>cycles = 10'' (Some [map PStr fieldnames, r1]) =
           Inr (p2, [map PStr fieldnames, r1, r2])
       \<and> length (map PStr fieldnames) = 13 \<and> length r1 = 13 \<and> length r2 = 13
       \<and> r1 ! 0 = PInt 4 \<and> r1 ! 8 = PStr [] \<and> r1 ! 9 = PFloat (3 / 4) \<and> r1 ! 12 = PStr []
       \<and> r2 ! 8 = PInt 5 \<and> r2 ! 9 = PStr [] \<and> r2 ! 12 = PFloat (1 / 2))"
proof -
  define m1 where "m1 = projr (main_rates [''total_reads'' \<mapsto> PInt 4, ''read_hits'' \<mapsto> PInt 3])"
  define m2 where
    "m2 = projr (main_rates [''cycles_bus_busy'' \<mapsto> PInt 5, ''cycles'' \<mapsto> PInt 10])"
  have m1: "main_rates [''total_reads'' \<mapsto> PInt 4, ''read_hits'' \<mapsto> PInt 3] = Inr m1"
    by (simp add: m1_def main_rates_int[OF int_valued_small])
  have m2: "main_rates [''cycles_bus_busy'' \<mapsto> PInt 5, ''cycles'' \<mapsto> PInt 10] = Inr m2"
    by (simp add: m2_def main_rates_int[OF int_valued_bus])
  have f1: "total_reads m1 = PInt 4" "cycles_bus_busy m1 = None"
    "cache_hit_rate m1 = Some (3 / 4)" "bus_utilization m1 = None"
    by (simp_all add: m1_def main_rates_int[OF int_valued_small] int_field_def ratio_def)
  have f2: "cycles_bus_busy m2 = Some (PInt 5)" "cache_hit_rate m2 = None"
    "bus_utilization m2 = Some (1 / 2)"
    by (simp_all add: m2_def main_rates_int[OF int_valued_bus] int_field_def ratio_def)
  from csv_header_once_and_row[OF parse_example_small m1 parse_example_bus m2]
  obtain r1 r2 where
    "main ''total_reads=4\<newline>read_hits=3'' None = Inr (table m1, [map PStr fieldnames, r1])"
    "main ''cycles_bus_busy = 5\<newline>cycles = 10'' (Some [map PStr fieldnames, r1]) =
           Inr (table m2, [map PStr fieldnames, r1, r2])"
    "length r1 = 13" "length r2 = 13"
    "r1 ! 0 = PInt 4" "r1 ! 8 = PStr []" "r1 ! 9 = PFloat (3 / 4)" "r1 ! 12 = PStr []"
    "r2 ! 8 = PInt 5" "r2 ! 9 = PStr []" "r2 ! 12 = PFloat (1 / 2)"
    by (auto simp: f1 f2)
  moreover have "length (map PStr fieldnames) = 13" by (simp add: fieldnames_def)
  ultimately show ?thesis using m1 m2 parse_example_small parse_example_bus by blast
qed

subsection \<open>parse\_kv\_lines and the algorithm of the specification\<close>

lemma split_eq1_first:
  "CHR ''='' \<in> set s \<Longrightarrow>
   split_eq1 s = [takeWhile (\<lambda>c. c \<noteq> CHR ''='') s, drop 1 (dropWhile (\<lambda>c. c \<noteq> CHR ''='') s)]"
  by (induction s) auto

lemma int_digits_error: "int_digits acc s = Inl e \<Longrightarrow> e = ValueError"
  by (induction acc s rule: int_digits.induct) (auto split: if_splits)

lemma int_unsigned_error: "int_unsigned s = Inl e \<Longrightarrow> e = ValueError"
  by (auto simp: int_unsigned_def split: list.splits if_splits dest: int_digits_error)

lemma py_int_error: "py_int s = Inl e \<Longrightarrow> e = ValueError"
  by (auto simp: py_int_def bind_def split: list.splits if_splits sum.splits
      dest: int_unsigned_error)

lemma parse_line_spec:
  "parse_line raw data =
   Inr (case spec_entry raw of None \<Rightarrow> data | Some (k, v) \<Rightarrow> data(k \<mapsto> v))"
proof (cases "py_int (strip (drop 1 (dropWhile (\<lambda>c. c \<noteq> CHR ''='') (strip raw))))")
  case (Inl e)
  then have "e = ValueError" by (rule py_int_error)
  with Inl show ?thesis
    by (auto simp: parse_line_def spec_entry_def Let_def startswith_hash_def contains_eq_def
        split_eq1_first split: list.splits)
next
  case (Inr n)
  then show ?thesis
    by (auto simp: parse_line_def spec_entry_def Let_def startswith_hash_def contains_eq_def
        split_eq1_first split: list.splits)
qed

lemma parse_lines_spec:
  "parse_lines ls data = Inr (data ++ map_of (rev (List.map_filter spec_entry ls)))"
proof (induction ls arbitrary: data)
  case Nil
  then show ?case by (simp add: List.map_filter_simps)
next
  case (Cons l ls)
  show ?case
  proof (cases "spec_entry l")
    case None
    then show ?thesis by (simp add: parse_line_spec Cons.IH List.map_filter_simps)
  next
    case (Some kv)
    obtain k v where kv: "kv = (k, v)" by (cases kv)
    have "parse_lines (l # ls) data = parse_lines ls (data(k \<mapsto> v))"
      using Some kv by (simp add: parse_line_spec)
    also have "\<dots> = Inr (data(k \<mapsto> v) ++ map_of (rev (List.map_filter spec_entry ls)))"
      by (rule Cons.IH)
    also have "data(k \<mapsto> v) ++ map_of (rev (List.map_filter spec_entry ls)) =
        data ++ map_of (rev (List.map_filter spec_entry (l # ls)))"
      by (rule ext) (simp add: Some kv List.map_filter_simps map_add_def split: option.splits)
    finally show ?thesis .
  qed
qed

lemma parse_kv_lines_spec: "parse_kv_lines text = Inr (spec_record text)"
  by (simp add: parse_kv_lines_def spec_record_def parse_lines_spec)

text \<open>
  C5. \<open>parse_kv_lines\<close> never raises, and its result is the record of the
  specification's algorithm: the text is split into lines; a line is trimmed; an empty
  line, a line starting with \<open>#\<close> and a line without \<open>=\<close> are skipped; another line
  is split at its first \<open>=\<close> only, key and value are trimmed, and the value is stored
  as an integer when it parses as one and as the trimmed string otherwise; a later line
  with the same key overwrites an earlier one.
\<close>

theorem parse_kv_lines_refines_spec: "parse_kv_lines text = Inr (spec_record text)"
  by (rule parse_kv_lines_spec)

lemma parse_example_mixed:
  "parse_kv_lines ''a = 1\<newline># c\<newline>\<newline>b=x=y\<newline>a=7\<newline>junk'' =
   Inr [''a'' \<mapsto> PInt 1, ''b'' \<mapsto> PStr ''x=y'', ''a'' \<mapsto> PInt 7]"
  by (simp add: eval_defs)

theorem parse_kv_lines_refines_spec_witness:
  "parse_kv_lines ''a = 1\<newline># c\<newline>\<newline>b=x=y\<newline>a=7\<newline>junk'' =
     Inr (spec_record ''a = 1\<newline># c\<newline>\<newline>b=x=y\<newline>a=7\<newline>junk'')
   \<and> spec_record ''a = 1\<newline># c\<newline>\<newline>b=x=y\<newline>a=7\<newline>junk'' ''a'' = Some (PInt 7)
   \<and> spec_record ''a = 1\<newline># c\<newline>\<newline>b=x=y\<newline>a=7\<newline>junk'' ''b'' = Some (PStr ''x=y'')
   \<and> spec_record ''a = 1\<newline># c\<newline>\<newline>b=x=y\<newline>a=7\<newline>junk'' ''junk'' = None
   \<and> spec_record ''a = 1\<newline># c\<newline>\<newline>b=x=y\<newline>a=7\<newline>junk'' ''# c'' = None"
proof -
  have "spec_record ''a = 1\<newline># c\<newline>\<newline>b=x=y\<newline>a=7\<newline>junk'' =
        [''a'' \<mapsto> PInt 1, ''b'' \<mapsto> PStr ''x=y'', ''a'' \<mapsto> PInt 7]"
    using parse_kv_lines_refines_spec[of "''a = 1\<newline># c\<newline>\<newline>b=x=y\<newline>a=7\<newline>junk''"]
    by (simp only: parse_example_mixed sum.inject)
  then show ?thesis
    using parse_kv_lines_refines_spec[of "''a = 1\<newline># c\<newline>\<newline>b=x=y\<newline>a=7\<newline>junk''"]
    by simp
qed

subsection \<open>Comment lines and blank lines\<close>

lemma strip_hd:
  assumes "dropWhile is_space l = c # xs"
  shows "\<exists>ys. strip l = c # ys"
proof -
  have c: "\<not> is_space c"
    using hd_dropWhile[of is_space l] assms by simp
  have "\<exists>zs. dropWhile is_space (rev xs @ [c]) = zs @ [c]"
  proof (cases "\<forall>x \<in> set (rev xs). is_space x")
    case True
    then have "dropWhile is_space (rev xs @ [c]) = [] @ [c]"
      using c by (simp add: dropWhile_append)
    then show ?thesis by blast
  next
    case False
    then have "dropWhile is_space (rev xs @ [c]) = dropWhile is_space (rev xs) @ [c]"
      by (simp add: dropWhile_append)
    then show ?thesis by blast
  qed
  then obtain zs where zs: "dropWhile is_space (rev xs @ [c]) = zs @ [c]" ..
  have "strip l = rev (dropWhile is_space (rev xs @ [c]))"
    by (simp only: strip_def assms rev.simps)
  also have "\<dots> = rev (zs @ [c])" by (simp only: zs)
  also have "\<dots> = c # rev zs" by simp
  finally show ?thesis ..
qed

lemma strip_Nil:
  assumes "dropWhile is_space l = []"
  shows "strip l = []"
  unfolding strip_def assms by simp

lemma comment_or_blank_entry: "comment_or_blank l \<Longrightarrow> spec_entry l = None"
proof (cases "dropWhile is_space l")
  case Nil
  then show ?thesis by (simp add: spec_entry_def strip_Nil)
next
  case (Cons c xs)
  assume "comment_or_blank l"
  with Cons have "c = CHR ''#''" by (simp add: comment_or_blank_def)
  with strip_hd[OF Cons] show ?thesis by (auto simp: spec_entry_def)
qed

lemma map_filter_entry_skip:
  "List.map_filter spec_entry (filter (\<lambda>l. \<not> comment_or_blank l) ls) =
   List.map_filter spec_entry ls"
  by (induction ls) (auto simp: List.map_filter_simps comment_or_blank_entry split: option.splits)

lemma parse_lines_skip:
  "parse_lines (filter (\<lambda>l. \<not> comment_or_blank l) ls) data = parse_lines ls data"
  by (simp add: parse_lines_spec map_filter_entry_skip)

lemma comment_or_blank_Nil [simp]: "comment_or_blank []"
  by (simp add: comment_or_blank_def)

lemma LF_linebreak [simp]: "is_linebreak (CHR 0x0A)" "CHR 0x0A \<noteq> CHR 0x0D"
  by (simp_all add: is_linebreak_def)

lemma splitlines_from_LF:
  "filter (\<lambda>l. \<not> comment_or_blank l) (splitlines_from cur (x @ CHR 0x0A # y)) =
   filter (\<lambda>l. \<not> comment_or_blank l) (splitlines_from cur x) @
   filter (\<lambda>l. \<not> comment_or_blank l) (splitlines_from [] y)"
proof (induction cur x rule: splitlines_from.induct)
  case (1 cur)
  then show ?case by simp
next
  case (2 cur c cs)
  show ?case
  proof (cases cs)
    case Nil
    then show ?thesis by (auto simp: is_linebreak_def)
  next
    case (Cons c' cs')
    with 2 show ?thesis by auto
  qed
qed

lemma splitlines_from_append:
  "a \<noteq> [] \<Longrightarrow> is_linebreak (last a) \<Longrightarrow>
   filter (\<lambda>l. \<not> comment_or_blank l) (splitlines_from cur (a @ b)) =
   filter (\<lambda>l. \<not> comment_or_blank l) (splitlines_from cur a) @
   filter (\<lambda>l. \<not> comment_or_blank l) (splitlines_from [] b)"
proof (induction cur a rule: splitlines_from.induct)
  case (1 cur)
  then show ?case by simp
next
  case (2 cur c cs)
  show ?case
  proof (cases cs)
    case Nil
    with 2(4,5) show ?thesis by (cases b) auto
  next
    case (Cons c' cs')
    show ?thesis
    proof (cases cs')
      case Nil
      with Cons 2 show ?thesis by (cases b) auto
    next
      case (Cons c'' cs'')
      with \<open>cs = c' # cs'\<close> 2 show ?thesis by auto
    qed
  qed
qed

lemma splitlines_from_plain:
  "\<forall>c \<in> set l. \<not> is_linebreak c \<Longrightarrow>
   splitlines_from cur l = (if l = [] \<and> cur = [] then [] else [rev cur @ l])"
  by (induction cur l rule: splitlines_from.induct) (auto simp: is_linebreak_def)


text \<open>
  C9. A line \<open>l\<close> whose first character that is not whitespace is \<open>#\<close>, or that is
  empty or blank, can be inserted anywhere without changing the parsed record: inserted
  with its newline at the start of any line of the text (after the empty text or after
  a line boundary), and appended after a newline at the end of the text,
  \<open>parse_kv_lines\<close> returns the same as on the original text.
\<close>

theorem ignored_line_insertion:
  assumes "comment_or_blank l" and "\<forall>c \<in> set l. \<not> is_linebreak c"
  shows "(a = [] \<or> is_linebreak (last a) \<longrightarrow>
            parse_kv_lines (a @ l @ ''\<newline>'' @ b) = parse_kv_lines (a @ b))
       \<and> parse_kv_lines (a @ ''\<newline>'' @ l) = parse_kv_lines a"
proof -
  let ?sig = "\<lambda>t. filter (\<lambda>l. \<not> comment_or_blank l) (splitlines t)"
  have parse: "parse_kv_lines t = parse_lines (?sig t) Map.empty" for t
    by (simp add: parse_kv_lines_def parse_lines_skip)
  have lf: "?sig (x @ CHR 0x0A # y) = ?sig x @ ?sig y" for x y
    by (simp only: splitlines_def splitlines_from_LF)
  have ap: "?sig (x @ y) = ?sig x @ ?sig y" if "x = [] \<or> is_linebreak (last x)" for x y
  proof (cases "x = []")
    case True
    then show ?thesis by (simp add: splitlines_def)
  next
    case False
    with that have "is_linebreak (last x)" by simp
    with False show ?thesis unfolding splitlines_def by (rule splitlines_from_append)
  qed
  have l: "?sig l = []"
    using assms(1) by (simp add: splitlines_def splitlines_from_plain[OF assms(2)])
  have first: "parse_kv_lines (a @ l @ ''\<newline>'' @ b) = parse_kv_lines (a @ b)"
    if a: "a = [] \<or> is_linebreak (last a)"
  proof -
    have "?sig (a @ l @ ''\<newline>'' @ b) = ?sig ((a @ l) @ CHR 0x0A # b)" by simp
    also have "\<dots> = ?sig (a @ l) @ ?sig b" by (rule lf)
    also have "?sig (a @ l) = ?sig a @ ?sig l" using a by (rule ap)
    also have "(?sig a @ ?sig l) @ ?sig b = ?sig a @ ?sig b" by (simp only: l append_Nil2)
    also have "\<dots> = ?sig (a @ b)" using a by (rule ap[symmetric])
    finally show ?thesis by (simp only: parse)
  qed
  have "?sig (a @ ''\<newline>'' @ l) = ?sig (a @ CHR 0x0A # l)" by simp
  also have "\<dots> = ?sig a @ ?sig l" by (rule lf)
  also have "\<dots> = ?sig a" by (simp only: l append_Nil2)
  finally have second: "parse_kv_lines (a @ ''\<newline>'' @ l) = parse_kv_lines a"
    by (simp only: parse)
  from first second show ?thesis by blast
qed

theorem ignored_line_insertion_witness:
  "comment_or_blank ''  # note'' \<and> comment_or_blank ''   ''
   \<and> list_all (\<lambda>c. \<not> is_linebreak c) ''  # note''
   \<and> is_linebreak (last ''a=1\<newline>'')
   \<and> parse_kv_lines (''a=1\<newline>'' @ ''  # note'' @ ''\<newline>'' @ ''b=2'') =
       parse_kv_lines (''a=1\<newline>'' @ ''b=2'')
   \<and> parse_kv_lines (''a=1\<newline>'' @ ''   '' @ ''\<newline>'' @ ''b=2'') =
       parse_kv_lines (''a=1\<newline>'' @ ''b=2'')
   \<and> parse_kv_lines (''a=1\<newline>b=2'' @ ''\<newline>'' @ ''  # note'') = parse_kv_lines ''a=1\<newline>b=2''
   \<and> parse_kv_lines (''a=1\<newline>'' @ ''b=2'') = Inr [''a'' \<mapsto> PInt 1, ''b'' \<mapsto> PInt 2]"
proof -
  have c1: "comment_or_blank ''  # note''" and c2: "comment_or_blank ''   ''"
    by (simp_all add: comment_or_blank_def is_space_def)
  have n1: "\<forall>c \<in> set ''  # note''. \<not> is_linebreak c"
    and n2: "\<forall>c \<in> set ''   ''. \<not> is_linebreak c"
    by (simp_all add: is_linebreak_def)
  have e: "is_linebreak (last ''a=1\<newline>'')" by (simp add: is_linebreak_def)
  have v: "parse_kv_lines (''a=1\<newline>'' @ ''b=2'') = Inr [''a'' \<mapsto> PInt 1, ''b'' \<mapsto> PInt 2]"
    by (simp add: eval_defs)
  from ignored_line_insertion[OF c1 n1, of "''a=1\<newline>''" "''b=2''"]
    ignored_line_insertion[OF c2 n2, of "''a=1\<newline>''" "''b=2''"]
    ignored_line_insertion[OF c1 n1, of "''a=1\<newline>b=2''"]
    c1 c2 n1 e v
  show ?thesis by (simp only: list_all_iff simp_thms)
qed

subsection \<open>Keys that main does not read\<close>

lemma main_rates_cong:
  assumes "\<forall>k \<in> set known_fields. d1 k = d2 k"
  shows "main_rates d1 = main_rates d2"
proof -
  have "d1 ''total_reads'' = d2 ''total_reads''" "d1 ''read_hits'' = d2 ''read_hits''"
    "d1 ''read_misses'' = d2 ''read_misses''" "d1 ''total_writes'' = d2 ''total_writes''"
    "d1 ''write_hits'' = d2 ''write_hits''" "d1 ''write_misses'' = d2 ''write_misses''"
    "d1 ''coherency_invalidates'' = d2 ''coherency_invalidates''"
    "d1 ''cycles'' = d2 ''cycles''" "d1 ''cycles_bus_busy'' = d2 ''cycles_bus_busy''"
    using assms by (simp_all add: known_fields_def numeric_fields_def)
  then show ?thesis
    by (simp only: main_rates_def dict_get_def)
qed

lemma map_of_filter_keys:
  "k \<in> K \<Longrightarrow> map_of (filter (\<lambda>p. fst p \<in> K) xs) k = map_of xs k"
  by (induction xs) auto

lemma map_filter_known:
  "List.map_filter spec_entry (filter (\<lambda>l. \<not> unknown_key_line l) ls) =
   filter (\<lambda>p. fst p \<in> set known_fields) (List.map_filter spec_entry ls)"
  by (induction ls)
    (auto simp: List.map_filter_simps unknown_key_line_def split: option.splits)

lemma spec_record_known:
  assumes "k \<in> set known_fields"
  shows "spec_record t k =
    map_of (rev (List.map_filter spec_entry
      (filter (\<lambda>l. \<not> unknown_key_line l) (splitlines t)))) k"
  using assms
  by (simp add: spec_record_def map_filter_known rev_filter map_of_filter_keys)

text \<open>
  C10. Two input texts that differ only in lines assigning to keys outside the nine
  known names (their lines are the same once those lines are left out) give the same
  run: the same lines printed and the same CSV file afterwards, or the same error.
\<close>

theorem unknown_keys_do_not_matter:
  assumes "filter (\<lambda>l. \<not> unknown_key_line l) (splitlines t1) =
           filter (\<lambda>l. \<not> unknown_key_line l) (splitlines t2)"
  shows "main t1 csv = main t2 csv"
proof -
  have "\<forall>k \<in> set known_fields. spec_record t1 k = spec_record t2 k"
    by (simp add: spec_record_known assms)
  then have "main_rates (spec_record t1) = main_rates (spec_record t2)"
    by (rule main_rates_cong)
  then show ?thesis
    by (simp add: main_def parse_kv_lines_spec)
qed

lemma unknown_examples:
  "unknown_key_line ''foo=1''" "unknown_key_line ''bar = xyz''"
  "\<not> unknown_key_line ''total_reads=4''" "\<not> unknown_key_line ''read_hits=3''"
  by (simp_all add: unknown_key_line_def spec_entry_def strip_def is_space_def py_int_def
      int_unsigned_def is_digit_def digit_val_def Let_def known_fields_def numeric_fields_def)

theorem unknown_keys_do_not_matter_witness:
  "unknown_key_line ''foo=1'' \<and> unknown_key_line ''bar = xyz''
   \<and> splitlines ''total_reads=4\<newline>foo=1\<newline>read_hits=3'' =
       [''total_reads=4'', ''foo=1'', ''read_hits=3'']
   \<and> splitlines ''total_reads=4\<newline>read_hits=3\<newline>bar = xyz'' =
       [''total_reads=4'', ''read_hits=3'', ''bar = xyz'']
   \<and> main ''total_reads=4\<newline>foo=1\<newline>read_hits=3'' None =
       main ''total_reads=4\<newline>read_hits=3\<newline>bar = xyz'' None"
proof -
  have s1: "splitlines ''total_reads=4\<newline>foo=1\<newline>read_hits=3'' =
       [''total_reads=4'', ''foo=1'', ''read_hits=3'']"
    and s2: "splitlines ''total_reads=4\<newline>read_hits=3\<newline>bar = xyz'' =
       [''total_reads=4'', ''read_hits=3'', ''bar = xyz'']"
    by (simp_all add: splitlines_def is_linebreak_def)
  have "filter (\<lambda>l. \<not> unknown_key_line l) (splitlines ''total_reads=4\<newline>foo=1\<newline>read_hits=3'') =
        filter (\<lambda>l. \<not> unknown_key_line l) (splitlines ''total_reads=4\<newline>read_hits=3\<newline>bar = xyz'')"
    by (simp only: s1 s2 filter.simps unknown_examples simp_thms if_True if_False)
  from unknown_keys_do_not_matter[OF this, of None] s1 s2 unknown_examples(1,2)
  show ?thesis by blast
qed

subsection \<open>A known field with a value that is not an integer\<close>

lemma main_error_iff:
  assumes "parse_kv_lines text = Inr d"
  shows "(main text csv = Inl e) = (main_rates d = Inl e)"
proof (cases "main_rates d")
  case (Inl e')
  then show ?thesis by (simp add: main_def assms)
next
  case (Inr m)
  then show ?thesis by (simp add: main_success[OF assms Inr])
qed

lemma int_valued_except_get:
  assumes "int_valued_except d k"
  shows "k \<noteq> ''total_reads'' \<Longrightarrow>
           dict_get d ''total_reads'' (PInt 0) = PInt (int_field d ''total_reads'')"
    and "k \<noteq> ''read_hits'' \<Longrightarrow>
           dict_get d ''read_hits'' (PInt 0) = PInt (int_field d ''read_hits'')"
    and "k \<noteq> ''read_misses'' \<Longrightarrow>
           dict_get d ''read_misses'' (PInt 0) = PInt (int_field d ''read_misses'')"
    and "k \<noteq> ''total_writes'' \<Longrightarrow>
           dict_get d ''total_writes'' (PInt 0) = PInt (int_field d ''total_writes'')"
    and "k \<noteq> ''write_hits'' \<Longrightarrow>
           dict_get d ''write_hits'' (PInt 0) = PInt (int_field d ''write_hits'')"
    and "k \<noteq> ''write_misses'' \<Longrightarrow>
           dict_get d ''write_misses'' (PInt 0) = PInt (int_field d ''write_misses'')"
    and "k \<noteq> ''coherency_invalidates'' \<Longrightarrow>
           dict_get d ''coherency_invalidates'' (PInt 0) =
           PInt (int_field d ''coherency_invalidates'')"
    and "k \<noteq> ''cycles'' \<Longrightarrow>
           dict_get d ''cycles'' (PInt 0) = PInt (int_field d ''cycles'')"
    and "k \<noteq> ''cycles_bus_busy'' \<Longrightarrow> int_or_absent d ''cycles_bus_busy''"
  using assms
  by (simp_all add: int_valued_except_def known_fields_def numeric_fields_def dict_get_int)

lemma safe_div_str_num: "safe_div (PStr s) (PInt n) = (if n = 0 then Inr None else Inl TypeError)"
  by (simp add: safe_div_def)

lemma safe_div_num_str: "safe_div (PInt n) (PStr s) = (if s = [] then Inr None else Inl TypeError)"
  by (simp add: safe_div_def)

lemma bus_cases:
  assumes "int_or_absent d ''cycles_bus_busy''"
  obtains "d ''cycles_bus_busy'' = None"
  | b where "d ''cycles_bus_busy'' = Some (PInt b)"
  using assms by (auto simp: int_or_absent_def split: option.splits pyval.splits)

lemma py_add_error: "py_add a b = Inl e \<Longrightarrow> e = TypeError"
  by (cases a; cases b) simp_all

lemma main_rates_add_error:
  assumes "py_add (dict_get d ''total_reads'' (PInt 0)) (dict_get d ''total_writes'' (PInt 0))
             = Inl e
         \<or> py_add (dict_get d ''read_hits'' (PInt 0)) (dict_get d ''write_hits'' (PInt 0))
             = Inl e
         \<or> py_add (dict_get d ''read_misses'' (PInt 0)) (dict_get d ''write_misses'' (PInt 0))
             = Inl e"
  shows "main_rates d = Inl TypeError"
proof -
  let ?a = "py_add (dict_get d ''total_reads'' (PInt 0)) (dict_get d ''total_writes'' (PInt 0))"
  let ?b = "py_add (dict_get d ''read_hits'' (PInt 0)) (dict_get d ''write_hits'' (PInt 0))"
  let ?c = "py_add (dict_get d ''read_misses'' (PInt 0)) (dict_get d ''write_misses'' (PInt 0))"
  have *: "main_rates d = bind ?a (\<lambda>ta. bind ?b (\<lambda>th. bind ?c (\<lambda>tm.
      bind (safe_div th ta) (\<lambda>chr.
      bind (safe_div tm ta) (\<lambda>cmr.
      bind (safe_div (dict_get d ''coherency_invalidates'' (PInt 0))
             (dict_get d ''total_reads'' (PInt 0))) (\<lambda>comr.
      bind (case d ''cycles_bus_busy'' of None \<Rightarrow> Inr None
            | Some b \<Rightarrow> safe_div b (dict_get d ''cycles'' (PInt 0))) (\<lambda>bu.
      Inr \<lparr>total_reads = dict_get d ''total_reads'' (PInt 0),
           read_hits = dict_get d ''read_hits'' (PInt 0),
           read_misses = dict_get d ''read_misses'' (PInt 0),
           total_writes = dict_get d ''total_writes'' (PInt 0),
           write_hits = dict_get d ''write_hits'' (PInt 0),
           write_misses = dict_get d ''write_misses'' (PInt 0),
           coherency_invalidates = dict_get d ''coherency_invalidates'' (PInt 0),
           cycles = dict_get d ''cycles'' (PInt 0),
           cycles_bus_busy = d ''cycles_bus_busy'', cache_hit_rate = chr,
           cache_miss_rate = cmr, coherency_miss_rate = comr,
           bus_utilization = bu\<rparr>)))))))"
    by (simp only: main_rates_def Let_def)
  show ?thesis
  proof (cases ?a)
    case (Inl e')
    then show ?thesis using py_add_error[OF Inl] by (simp only: * bind_Inl)
  next
    case a: (Inr ta)
    show ?thesis
    proof (cases ?b)
      case (Inl e')
      then show ?thesis using py_add_error[OF Inl] by (simp only: * a bind_Inr bind_Inl)
    next
      case b: (Inr th)
      show ?thesis
      proof (cases ?c)
        case (Inl e')
        then show ?thesis using py_add_error[OF Inl]
          by (simp only: * a b bind_Inr bind_Inl)
      next
        case (Inr tm)
        with a b assms show ?thesis by simp
      qed
    qed
  qed
qed

text \<open>
  C1, as amended. A known numeric field is read as 0 only when its key is absent. When the
  key is present with a value that is not an integer, the field is the stored string, not
  0. With every other known name absent or an integer: for \<open>total_reads\<close>,
  \<open>read_hits\<close>, \<open>read_misses\<close>, \<open>total_writes\<close>, \<open>write_hits\<close> and
  \<open>write_misses\<close> the run raises \<^verbatim>\<open>TypeError\<close>; for \<open>coherency_invalidates\<close> it
  raises \<^verbatim>\<open>TypeError\<close> when \<open>total_reads\<close> is not zero, and otherwise goes on with
  the string as the field and no \<open>coherency_miss_rate\<close>; for \<open>cycles\<close> it raises
  \<^verbatim>\<open>TypeError\<close> when \<open>cycles_bus_busy\<close> is present and the string is not empty,
  and otherwise goes on with the string as the field and no \<open>bus_utilization\<close>.
\<close>

theorem non_integer_field_stays_string:
  assumes "parse_kv_lines text = Inr d" and "d k = Some (PStr s)"
    and "int_valued_except d k"
  shows "dict_get d k (PInt 0) = PStr s
     \<and> (k \<in> set summand_fields \<longrightarrow> main text csv = Inl TypeError)
     \<and> (k = ''coherency_invalidates'' \<longrightarrow>
          (if int_field d ''total_reads'' \<noteq> 0 then main text csv = Inl TypeError
           else \<exists>m. main_rates d = Inr m \<and> coherency_invalidates m = PStr s
                  \<and> coherency_miss_rate m = None))
     \<and> (k = ''cycles'' \<longrightarrow>
          (if d ''cycles_bus_busy'' \<noteq> None \<and> s \<noteq> [] then main text csv = Inl TypeError
           else \<exists>m. main_rates d = Inr m \<and> cycles m = PStr s \<and> bus_utilization m = None))"
proof -
  note g = int_valued_except_get[OF assms(3)]
  have raw: "dict_get d k (PInt 0) = PStr s"
    by (simp add: dict_get_def assms(2))
  have sums: "main_rates d = Inl TypeError" if "k \<in> set summand_fields"
  proof -
    from that have "k = ''total_reads'' \<or> k = ''read_hits'' \<or> k = ''read_misses''
      \<or> k = ''total_writes'' \<or> k = ''write_hits'' \<or> k = ''write_misses''"
      by (simp only: summand_fields_def list.set insert_iff empty_iff simp_thms)
    then show ?thesis
    proof (elim disjE)
      assume 1: "k = ''total_reads''"
      have "dict_get d ''total_reads'' (PInt 0) = PStr s" using raw 1 by simp
      moreover have "dict_get d ''total_writes'' (PInt 0) = PInt (int_field d ''total_writes'')"
        using g(4) 1 by simp
      ultimately show ?thesis by (intro main_rates_add_error[where e = TypeError]) simp
    next
      assume 2: "k = ''read_hits''"
      have "dict_get d ''read_hits'' (PInt 0) = PStr s" using raw 2 by simp
      moreover have "dict_get d ''write_hits'' (PInt 0) = PInt (int_field d ''write_hits'')"
        using g(5) 2 by simp
      ultimately show ?thesis by (intro main_rates_add_error[where e = TypeError]) simp
    next
      assume 3: "k = ''read_misses''"
      have "dict_get d ''read_misses'' (PInt 0) = PStr s" using raw 3 by simp
      moreover have "dict_get d ''write_misses'' (PInt 0) = PInt (int_field d ''write_misses'')"
        using g(6) 3 by simp
      ultimately show ?thesis by (intro main_rates_add_error[where e = TypeError]) simp
    next
      assume 4: "k = ''total_writes''"
      have "dict_get d ''total_writes'' (PInt 0) = PStr s" using raw 4 by simp
      moreover have "dict_get d ''total_reads'' (PInt 0) = PInt (int_field d ''total_reads'')"
        using g(1) 4 by simp
      ultimately show ?thesis by (intro main_rates_add_error[where e = TypeError]) simp
    next
      assume 5: "k = ''write_hits''"
      have "dict_get d ''write_hits'' (PInt 0) = PStr s" using raw 5 by simp
      moreover have "dict_get d ''read_hits'' (PInt 0) = PInt (int_field d ''read_hits'')"
        using g(2) 5 by simp
      ultimately show ?thesis by (intro main_rates_add_error[where e = TypeError]) simp
    next
      assume 6: "k = ''write_misses''"
      have "dict_get d ''write_misses'' (PInt 0) = PStr s" using raw 6 by simp
      moreover have "dict_get d ''read_misses'' (PInt 0) = PInt (int_field d ''read_misses'')"
        using g(3) 6 by simp
      ultimately show ?thesis by (intro main_rates_add_error[where e = TypeError]) simp
    qed
  qed
  have ci: "if int_field d ''total_reads'' \<noteq> 0 then main_rates d = Inl TypeError
           else \<exists>m. main_rates d = Inr m \<and> coherency_invalidates m = PStr s
                  \<and> coherency_miss_rate m = None"
    if k: "k = ''coherency_invalidates''"
  proof -
    have f: "dict_get d ''coherency_invalidates'' (PInt 0) = PStr s"
      "dict_get d ''total_reads'' (PInt 0) = PInt (int_field d ''total_reads'')"
      "dict_get d ''read_hits'' (PInt 0) = PInt (int_field d ''read_hits'')"
      "dict_get d ''read_misses'' (PInt 0) = PInt (int_field d ''read_misses'')"
      "dict_get d ''total_writes'' (PInt 0) = PInt (int_field d ''total_writes'')"
      "dict_get d ''write_hits'' (PInt 0) = PInt (int_field d ''write_hits'')"
      "dict_get d ''write_misses'' (PInt 0) = PInt (int_field d ''write_misses'')"
      "dict_get d ''cycles'' (PInt 0) = PInt (int_field d ''cycles'')"
      using raw g(1-6,8) k by simp_all
    from k g(9) have "int_or_absent d ''cycles_bus_busy''" by simp
    then show ?thesis
    proof (cases rule: bus_cases)
      case 1
      show ?thesis
        unfolding main_rates_def Let_def f 1
        by (simp add: safe_div_int safe_div_str_num)
    next
      case (2 b)
      show ?thesis
        unfolding main_rates_def Let_def f 2
        by (simp add: safe_div_int safe_div_str_num)
    qed
  qed
  have cy: "if d ''cycles_bus_busy'' \<noteq> None \<and> s \<noteq> [] then main_rates d = Inl TypeError
           else \<exists>m. main_rates d = Inr m \<and> cycles m = PStr s \<and> bus_utilization m = None"
    if k: "k = ''cycles''"
  proof -
    have f: "dict_get d ''cycles'' (PInt 0) = PStr s"
      "dict_get d ''total_reads'' (PInt 0) = PInt (int_field d ''total_reads'')"
      "dict_get d ''read_hits'' (PInt 0) = PInt (int_field d ''read_hits'')"
      "dict_get d ''read_misses'' (PInt 0) = PInt (int_field d ''read_misses'')"
      "dict_get d ''total_writes'' (PInt 0) = PInt (int_field d ''total_writes'')"
      "dict_get d ''write_hits'' (PInt 0) = PInt (int_field d ''write_hits'')"
      "dict_get d ''write_misses'' (PInt 0) = PInt (int_field d ''write_misses'')"
      "dict_get d ''coherency_invalidates'' (PInt 0) =
         PInt (int_field d ''coherency_invalidates'')"
      using raw g(1-7) k by simp_all
    from k g(9) have "int_or_absent d ''cycles_bus_busy''" by simp
    then show ?thesis
    proof (cases rule: bus_cases)
      case 1
      show ?thesis
        unfolding main_rates_def Let_def f 1
        by (simp add: safe_div_int)
    next
      case (2 b)
      show ?thesis
        unfolding main_rates_def Let_def f 2
        by (simp add: safe_div_int safe_div_num_str)
    qed
  qed
  have e: "(main text csv = Inl TypeError) = (main_rates d = Inl TypeError)"
    by (rule main_error_iff[OF assms(1)])
  show ?thesis
    unfolding e
    apply (intro conjI impI)
       apply (rule raw)
      apply (erule sums)
     apply (erule ci)
    apply (erule cy)
    done
qed

lemmas rates_eval = main_rates_def Let_def dict_get_def safe_div_def

text \<open>
  C1 as stated fails: the input \<open>total_reads=abc\<close> stores the string \<open>abc\<close> and the
  run raises \<^verbatim>\<open>TypeError\<close>, while the empty input, where the key is absent, runs
  without error.
\<close>

theorem non_integer_field_counterexample:
  "parse_kv_lines ''total_reads=abc'' = Inr [''total_reads'' \<mapsto> PStr ''abc'']
   \<and> main ''total_reads=abc'' None = Inl TypeError
   \<and> parse_kv_lines [] = Inr Map.empty
   \<and> main [] None \<noteq> Inl TypeError"
proof -
  have p: "parse_kv_lines ''total_reads=abc'' = Inr [''total_reads'' \<mapsto> PStr ''abc'']"
    by (simp add: eval_defs)
  have r: "main_rates [''total_reads'' \<mapsto> PStr ''abc''] = Inl TypeError"
    by (simp add: rates_eval)
  have q: "parse_kv_lines [] = Inr Map.empty"
    by (simp add: parse_kv_lines_def splitlines_def)
  have "int_valued Map.empty"
    by (simp add: int_valued_def known_fields_def numeric_fields_def int_or_absent_def)
  from main_success[OF q main_rates_int[OF this], of None]
  have "main [] None \<noteq> Inl TypeError" by simp
  with p q r show ?thesis by (simp add: main_error_iff[OF p])
qed

lemma except_examples:
  "int_valued_except [''total_reads'' \<mapsto> PStr ''abc''] ''total_reads''"
  "int_valued_except [''cycles'' \<mapsto> PStr ''abc''] ''cycles''"
  by (simp_all add: int_valued_except_def known_fields_def numeric_fields_def int_or_absent_def)

lemma parse_example_cycles:
  "parse_kv_lines ''cycles=abc'' = Inr [''cycles'' \<mapsto> PStr ''abc'']"
  by (simp add: eval_defs)

theorem non_integer_field_stays_string_witness:
  "parse_kv_lines ''total_reads=abc'' = Inr [''total_reads'' \<mapsto> PStr ''abc'']
   \<and> int_valued_except [''total_reads'' \<mapsto> PStr ''abc''] ''total_reads''
   \<and> ''total_reads'' \<in> set summand_fields
   \<and> dict_get [''total_reads'' \<mapsto> PStr ''abc''] ''total_reads'' (PInt 0) = PStr ''abc''
   \<and> main ''total_reads=abc'' None = Inl TypeError
   \<and> parse_kv_lines ''cycles=abc'' = Inr [''cycles'' \<mapsto> PStr ''abc'']
   \<and> int_valued_except [''cycles'' \<mapsto> PStr ''abc''] ''cycles''
   \<and> (\<exists>m. main_rates [''cycles'' \<mapsto> PStr ''abc''] = Inr m \<and> cycles m = PStr ''abc''
         \<and> bus_utilization m = None)"
proof -
  have p: "parse_kv_lines ''total_reads=abc'' = Inr [''total_reads'' \<mapsto> PStr ''abc'']"
    by (simp add: eval_defs)
  have s: "''total_reads'' \<in> set summand_fields" by (simp add: summand_fields_def)
  have v: "[''total_reads'' \<mapsto> PStr ''abc''] ''total_reads'' = Some (PStr ''abc'')"
    "[''cycles'' \<mapsto> PStr ''abc''] ''cycles'' = Some (PStr ''abc'')"
    "[''cycles'' \<mapsto> PStr ''abc''] ''cycles_bus_busy'' = None"
    by simp_all
  from non_integer_field_stays_string[OF p v(1) except_examples(1), of None]
    non_integer_field_stays_string[OF parse_example_cycles v(2) except_examples(2), of None]
    p s v(3) except_examples parse_example_cycles
  show ?thesis by simp
qed

subsection \<open>The cases of bus\_utilization\<close>

lemma main_rates_bus:
  assumes "main_rates d = Inr m"
  shows "(case d ''cycles_bus_busy'' of None \<Rightarrow> Inr None
          | Some b \<Rightarrow> safe_div b (dict_get d ''cycles'' (PInt 0))) = Inr (bus_utilization m)"
  using assms unfolding main_rates_def Let_def
  by (auto elim!: bindE)

lemma safe_div_falsy: "\<not> truthy c \<Longrightarrow> safe_div n c = Inr None"
  by (simp add: safe_div_def)

lemma safe_div_InrD:
  assumes "safe_div n c = Inr r" and "truthy c"
  shows "\<exists>x. py_truediv n c = Inr x \<and> r = Some x"
  using assms by (auto simp: safe_div_def elim!: bindE)

lemma safe_div_str: "c \<noteq> 0 \<Longrightarrow> safe_div (PStr s) (PInt c) = Inl TypeError"
  by (simp add: safe_div_def)

text \<open>
  C3, as amended. When the rates are computed without error, \<open>bus_utilization\<close> is
  \<open>None\<close> if the key \<open>cycles_bus_busy\<close> is absent, and if \<open>cycles\<close> is 0 (or the
  empty string) whatever \<open>cycles_bus_busy\<close> holds; it is not \<open>None\<close> but the float that
  the division \<open>cycles_bus_busy / cycles\<close> returns if the key is present with an integer
  and \<open>cycles\<close> is an integer other than 0; with \<open>cycles_bus_busy = 0\<close> and
  \<open>cycles = 1000\<close> it is \<open>0.0\<close>. When the key is present with a value that is not an
  integer and \<open>cycles\<close> is an integer other than 0, the division raises
  \<^verbatim>\<open>TypeError\<close> and the computation of the rates fails.
\<close>

theorem bus_utilization_cases:
  "(main_rates d = Inr m \<longrightarrow>
      (d ''cycles_bus_busy'' = None \<longrightarrow> bus_utilization m = None)
    \<and> (\<not> truthy (dict_get d ''cycles'' (PInt 0)) \<longrightarrow> bus_utilization m = None)
    \<and> (\<forall>b c. d ''cycles_bus_busy'' = Some (PInt b) \<and> dict_get d ''cycles'' (PInt 0) = PInt c
            \<and> c \<noteq> 0 \<longrightarrow>
          (\<exists>x. py_truediv (PInt b) (PInt c) = Inr x \<and> bus_utilization m = Some x))
    \<and> (d ''cycles_bus_busy'' = Some (PInt 0) \<and> dict_get d ''cycles'' (PInt 0) = PInt 1000 \<longrightarrow>
          bus_utilization m = Some 0))
   \<and> (\<forall>s c. d ''cycles_bus_busy'' = Some (PStr s) \<and> dict_get d ''cycles'' (PInt 0) = PInt c
          \<and> c \<noteq> 0 \<longrightarrow>
        safe_div (PStr s) (PInt c) = Inl TypeError \<and> (\<exists>e. main_rates d = Inl e))"
proof -
  have absent: "bus_utilization m = None"
    if "main_rates d = Inr m" and "d ''cycles_bus_busy'' = None"
    using main_rates_bus[OF that(1)] that(2) by simp
  have zero: "bus_utilization m = None"
    if m: "main_rates d = Inr m" and z: "\<not> truthy (dict_get d ''cycles'' (PInt 0))"
  proof (cases "d ''cycles_bus_busy''")
    case None
    with m show ?thesis by (rule absent)
  next
    case (Some b)
    with main_rates_bus[OF m] safe_div_falsy[OF z, of b] show ?thesis by simp
  qed
  have quot: "\<exists>x. py_truediv (PInt b) (PInt c) = Inr x \<and> bus_utilization m = Some x"
    if m: "main_rates d = Inr m" and b: "d ''cycles_bus_busy'' = Some (PInt b)"
      and c: "dict_get d ''cycles'' (PInt 0) = PInt c" "c \<noteq> 0" for b c
  proof -
    from main_rates_bus[OF m] b c(1)
    have "safe_div (PInt b) (PInt c) = Inr (bus_utilization m)" by simp
    moreover have "truthy (PInt c)" using c(2) by simp
    ultimately show ?thesis by (rule safe_div_InrD)
  qed
  have zero_num: "bus_utilization m = Some 0"
    if m: "main_rates d = Inr m" and b: "d ''cycles_bus_busy'' = Some (PInt 0)"
      and c: "dict_get d ''cycles'' (PInt 0) = PInt 1000"
    using quot[OF m b c] by simp
  have str: "safe_div (PStr s) (PInt c) = Inl TypeError \<and> (\<exists>e. main_rates d = Inl e)"
    if b: "d ''cycles_bus_busy'' = Some (PStr s)"
      and c: "dict_get d ''cycles'' (PInt 0) = PInt c" "c \<noteq> 0" for s c
  proof -
    have t: "safe_div (PStr s) (PInt c) = Inl TypeError" using c(2) by (rule safe_div_str)
    have "\<exists>e. main_rates d = Inl e"
    proof (cases "main_rates d")
      case (Inl e)
      then show ?thesis by blast
    next
      case (Inr m')
      from main_rates_bus[OF Inr] b c(1) t show ?thesis by simp
    qed
    with t show ?thesis by blast
  qed
  from absent zero quot zero_num str show ?thesis by blast
qed

lemma parse_example_bus_string:
  "parse_kv_lines ''cycles_bus_busy=abc\<newline>cycles=1000'' =
   Inr [''cycles_bus_busy'' \<mapsto> PStr ''abc'', ''cycles'' \<mapsto> PInt 1000]"
  by (simp add: eval_defs)

lemma rates_example_bus_string:
  "main_rates [''cycles_bus_busy'' \<mapsto> PStr ''abc'', ''cycles'' \<mapsto> PInt 1000] = Inl TypeError"
  by (simp add: main_rates_def Let_def dict_get_def safe_div_def)

text \<open>
  C3 as stated fails: on the input \<open>cycles_bus_busy=abc\<close>, \<open>cycles=1000\<close> the key is
  present with a value that is not an integer, one of the claim's other cases, and the run
  raises \<^verbatim>\<open>TypeError\<close> where the claim has \<open>None\<close>.
\<close>

theorem bus_utilization_counterexample:
  "parse_kv_lines ''cycles_bus_busy=abc\<newline>cycles=1000'' =
     Inr [''cycles_bus_busy'' \<mapsto> PStr ''abc'', ''cycles'' \<mapsto> PInt 1000]
   \<and> main_rates [''cycles_bus_busy'' \<mapsto> PStr ''abc'', ''cycles'' \<mapsto> PInt 1000] = Inl TypeError
   \<and> main ''cycles_bus_busy=abc\<newline>cycles=1000'' None = Inl TypeError"
  using parse_example_bus_string rates_example_bus_string
  by (simp add: main_error_iff[OF parse_example_bus_string])

lemma int_valued_bus_examples:
  "int_valued [''cycles_bus_busy'' \<mapsto> PInt b, ''cycles'' \<mapsto> PInt c]"
  "int_valued [''cycles'' \<mapsto> PInt c]"
  by (simp_all add: int_valued_def known_fields_def numeric_fields_def int_or_absent_def)

theorem bus_utilization_cases_witness:
  "(\<exists>m. main_rates [''cycles_bus_busy'' \<mapsto> PInt 0, ''cycles'' \<mapsto> PInt 1000] = Inr m
        \<and> bus_utilization m = Some 0)
   \<and> (\<exists>m x. main_rates [''cycles_bus_busy'' \<mapsto> PInt 5, ''cycles'' \<mapsto> PInt 10] = Inr m
        \<and> py_truediv (PInt 5) (PInt 10) = Inr x \<and> bus_utilization m = Some x)
   \<and> (\<exists>m. main_rates [''cycles_bus_busy'' \<mapsto> PInt 7, ''cycles'' \<mapsto> PInt 0] = Inr m
        \<and> bus_utilization m = None)
   \<and> (\<exists>m. main_rates [''cycles_bus_busy'' \<mapsto> PStr ''abc'', ''cycles'' \<mapsto> PInt 0] = Inr m
        \<and> bus_utilization m = None)
   \<and> (\<exists>m. main_rates [''cycles'' \<mapsto> PInt 1000] = Inr m \<and> bus_utilization m = None)
   \<and> safe_div (PStr ''abc'') (PInt 1000) = Inl TypeError
   \<and> (\<exists>e. main_rates [''cycles_bus_busy'' \<mapsto> PStr ''abc'', ''cycles'' \<mapsto> PInt 1000] = Inl e)"
proof -
  let ?d1 = "[''cycles_bus_busy'' \<mapsto> PInt 0, ''cycles'' \<mapsto> PInt 1000]"
  let ?d2 = "[''cycles_bus_busy'' \<mapsto> PInt 5, ''cycles'' \<mapsto> PInt 10]"
  let ?d3 = "[''cycles_bus_busy'' \<mapsto> PInt 7, ''cycles'' \<mapsto> PInt 0]"
  let ?d4 = "[''cycles_bus_busy'' \<mapsto> PStr ''abc'', ''cycles'' \<mapsto> PInt 0]"
  let ?d5 = "[''cycles'' \<mapsto> PInt 1000] :: dict"
  let ?d6 = "[''cycles_bus_busy'' \<mapsto> PStr ''abc'', ''cycles'' \<mapsto> PInt 1000]"
  obtain m1 where m1: "main_rates ?d1 = Inr m1"
    using main_rates_int[OF int_valued_bus_examples(1)[of 0 1000]] by blast
  obtain m2 where m2: "main_rates ?d2 = Inr m2"
    using main_rates_int[OF int_valued_bus_examples(1)[of 5 10]] by blast
  obtain m3 where m3: "main_rates ?d3 = Inr m3"
    using main_rates_int[OF int_valued_bus_examples(1)[of 7 0]] by blast
  obtain m4 where m4: "main_rates ?d4 = Inr m4"
    by (simp add: main_rates_def Let_def dict_get_def safe_div_def)
  obtain m5 where m5: "main_rates ?d5 = Inr m5"
    using main_rates_int[OF int_valued_bus_examples(2)[of 1000]] by blast
  have 1: "bus_utilization m1 = Some 0"
    using bus_utilization_cases[of ?d1 m1] m1 by (simp add: dict_get_def)
  have 2: "\<exists>x. py_truediv (PInt 5) (PInt 10) = Inr x \<and> bus_utilization m2 = Some x"
    using bus_utilization_cases[of ?d2 m2] m2 by (simp add: dict_get_def)
  have 3: "bus_utilization m3 = None"
    using bus_utilization_cases[of ?d3 m3] m3 by (simp add: dict_get_def)
  have 4: "bus_utilization m4 = None"
    using bus_utilization_cases[of ?d4 m4] m4 by (simp add: dict_get_def)
  have 5: "bus_utilization m5 = None"
    using bus_utilization_cases[of ?d5 m5] m5 by simp
  have 6: "safe_div (PStr ''abc'') (PInt 1000) = Inl TypeError
      \<and> (\<exists>e. main_rates ?d6 = Inl e)"
    using bus_utilization_cases[of ?d6 m1] by (simp add: dict_get_def)
  from m1 m2 m3 m4 m5 1 2 3 4 5 6 show ?thesis by blast
qed

end
